theory Spec2Isabelle
  imports Complex_Main "HOL-Library.Sublist"
begin

section \<open>Python values used by scoring.py\<close>

text \<open>
  Strings are lists of characters; a character stands for a code point below 256, where
  the definitions below agree with Python's \<^verbatim>\<open>str.isspace\<close> and \<^verbatim>\<open>str.lower\<close>.

  A Python float is a finite value, an infinity or NaN; finite values are real numbers.
  The arithmetic of \<^verbatim>\<open>compute_length_penalty\<close> is that of doubles: each operation is
  rounded by \<open>fl\<close> below, since its result is compared with 1.0. The arithmetic of
  the rest of the pipeline (the keyword ratio, the blend, the sums and the weighted mean)
  is exact: rounding and overflow there are not part of this model.
\<close>

datatype pyfloat = Fin real | PInf | NInf | NaN

datatype error = ValueError | ZeroDivisionError

text \<open>A cell of a rubric row: text, or a number; the missing value is the float NaN.\<close>

datatype cell = Text string | Num pyfloat

type_synonym row = "(string \<times> cell) list"

text \<open>
  What scoring.py takes from its surroundings: \<open>num_repr\<close> is \<^verbatim>\<open>str\<close> on a finite number,
  \<open>parse_float\<close> is \<^verbatim>\<open>float\<close> on a string (\<open>None\<close> when it raises ValueError), and
  \<open>model\<close> is the module-level sentence-embedding model, \<open>None\<close> when loading it
  raised; when present it is given as the cosine similarity of the encodings of two texts.
\<close>

record env =
  num_repr :: "real \<Rightarrow> string"
  parse_float :: "string \<Rightarrow> pyfloat option"
  model :: "(string \<Rightarrow> string \<Rightarrow> real) option"

definition isfinite :: "pyfloat \<Rightarrow> bool" where
  "isfinite x = (case x of Fin _ \<Rightarrow> True | _ \<Rightarrow> False)"

definition notna :: "cell \<Rightarrow> bool" where
  "notna v = (v \<noteq> Num NaN)"

definition py_str :: "env \<Rightarrow> cell \<Rightarrow> string" where
  "py_str e v =
     (case v of
        Text s \<Rightarrow> s
      | Num (Fin r) \<Rightarrow> num_repr e r
      | Num PInf \<Rightarrow> ''inf''
      | Num NInf \<Rightarrow> ''-inf''
      | Num NaN \<Rightarrow> ''nan'')"

definition py_float :: "env \<Rightarrow> cell \<Rightarrow> error + pyfloat" where
  "py_float e v =
     (case v of
        Num f \<Rightarrow> Inr f
      | Text s \<Rightarrow> (case parse_float e s of None \<Rightarrow> Inl ValueError | Some f \<Rightarrow> Inr f))"

subsection \<open>Float arithmetic with infinities and NaN\<close>

fun fadd :: "pyfloat \<Rightarrow> pyfloat \<Rightarrow> pyfloat" where
  "fadd NaN _ = NaN"
| "fadd _ NaN = NaN"
| "fadd (Fin a) (Fin b) = Fin (a + b)"
| "fadd PInf NInf = NaN"
| "fadd NInf PInf = NaN"
| "fadd PInf _ = PInf"
| "fadd _ PInf = PInf"
| "fadd NInf _ = NInf"
| "fadd _ NInf = NInf"

definition inf_signed :: "bool \<Rightarrow> real \<Rightarrow> pyfloat" where
  "inf_signed positive a =
     (if a = 0 then NaN else if (0 < a) = positive then PInf else NInf)"

fun fmul :: "pyfloat \<Rightarrow> pyfloat \<Rightarrow> pyfloat" where
  "fmul NaN _ = NaN"
| "fmul _ NaN = NaN"
| "fmul (Fin a) (Fin b) = Fin (a * b)"
| "fmul (Fin a) PInf = inf_signed True a"
| "fmul (Fin a) NInf = inf_signed False a"
| "fmul PInf (Fin b) = inf_signed True b"
| "fmul NInf (Fin b) = inf_signed False b"
| "fmul PInf PInf = PInf"
| "fmul PInf NInf = NInf"
| "fmul NInf PInf = NInf"
| "fmul NInf NInf = PInf"

text \<open>Float division raises ZeroDivisionError on a zero divisor.\<close>

fun fdiv :: "pyfloat \<Rightarrow> pyfloat \<Rightarrow> error + pyfloat" where
  "fdiv a (Fin b) =
     (if b = 0 then Inl ZeroDivisionError
      else Inr (case a of
                  Fin x \<Rightarrow> Fin (x / b)
                | PInf \<Rightarrow> inf_signed True b
                | NInf \<Rightarrow> inf_signed False b
                | NaN \<Rightarrow> NaN))"
| "fdiv NaN _ = Inr NaN"
| "fdiv _ NaN = Inr NaN"
| "fdiv (Fin a) _ = Inr (Fin 0)"
| "fdiv _ _ = Inr NaN"

text \<open>\<^verbatim>\<open>round(x, n)\<close>: to \<open>n\<close> decimals, a tie going to the even neighbour.\<close>

definition round_half_even :: "real \<Rightarrow> int" where
  "round_half_even x =
     (let f = \<lfloor>x\<rfloor>; d = x - of_int f
      in if d < 1 / 2 then f else if 1 / 2 < d then f + 1
         else if even f then f else f + 1)"

definition round_real :: "real \<Rightarrow> nat \<Rightarrow> real" where
  "round_real x n = of_int (round_half_even (x * 10 ^ n)) / 10 ^ n"

definition py_round :: "pyfloat \<Rightarrow> nat \<Rightarrow> pyfloat" where
  "py_round x n = (case x of Fin r \<Rightarrow> Fin (round_real r n) | _ \<Rightarrow> x)"

text \<open>
  Rounding of a real number to the nearest double, a tie going to the even significand:
  53 significant bits. The exponent is not bounded (no overflow, no subnormal numbers).
\<close>

definition fl :: "real \<Rightarrow> real" where
  "fl x =
     (if x = 0 then 0
      else (let u = 2 powr of_int (\<lfloor>log 2 \<bar>x\<bar>\<rfloor> - 52)
            in of_int (round_half_even (x / u)) * u))"

text \<open>
  \<open>fl\<close> has no code equation (its exponent is a logarithm): a value of \<open>fl\<close> is
  computed from the binary exponent of its argument by lemma \<open>fl_eval\<close> below.
\<close>

declare fl_def [code del]

text \<open>\<^verbatim>\<open>int(x)\<close> truncates towards zero; \<^verbatim>\<open>str\<close> of an integer is its decimal form.\<close>

definition py_int :: "real \<Rightarrow> int" where
  "py_int x = (if 0 \<le> x then \<lfloor>x\<rfloor> else \<lceil>x\<rceil>)"

fun digits :: "nat \<Rightarrow> string" where
  "digits n =
     (if n < 10 then [char_of (48 + n)]
      else digits (n div 10) @ [char_of (48 + n mod 10)])"

definition str_int :: "int \<Rightarrow> string" where
  "str_int i = (if i < 0 then CHR ''-'' # digits (nat (- i)) else digits (nat i))"

subsection \<open>String methods\<close>

definition isspace :: "char \<Rightarrow> bool" where
  "isspace c =
     (c \<in> set [CHR 0x09, CHR 0x0A, CHR 0x0B, CHR 0x0C, CHR 0x0D, CHR 0x1C, CHR 0x1D,
               CHR 0x1E, CHR 0x1F, CHR 0x20, CHR 0x85, CHR 0xA0])"

definition lower_char :: "char \<Rightarrow> char" where
  "lower_char c =
     (let n = (of_char c :: nat)
      in if (65 \<le> n \<and> n \<le> 90) \<or> (192 \<le> n \<and> n \<le> 222 \<and> n \<noteq> 215)
         then char_of (n + 32) else c)"

definition lower :: "string \<Rightarrow> string" where
  "lower s = map lower_char s"

definition strip :: "string \<Rightarrow> string" where
  "strip s = rev (dropWhile isspace (rev (dropWhile isspace s)))"

text \<open>\<^verbatim>\<open>s.replace("\n", " ")\<close>.\<close>

definition replace_newlines :: "string \<Rightarrow> string" where
  "replace_newlines s = map (\<lambda>c. if c = CHR 0x0A then CHR 0x20 else c) s"

text \<open>\<^verbatim>\<open>re.sub(r"\s+", " ", s)\<close>: every maximal run of whitespace becomes one space.\<close>

function collapse_ws :: "string \<Rightarrow> string" where
  "collapse_ws [] = []"
| "collapse_ws (c # cs) =
     (if isspace c then CHR 0x20 # collapse_ws (dropWhile isspace cs)
      else c # collapse_ws cs)"
  by pat_completeness auto
termination
  by (relation "measure length") (auto simp: less_Suc_eq_le length_dropWhile_le)

text \<open>\<^verbatim>\<open>s.split()\<close>: the maximal runs of non-whitespace.\<close>

function split_ws :: "string \<Rightarrow> string list" where
  "split_ws [] = []"
| "split_ws (c # cs) =
     (if isspace c then split_ws (dropWhile isspace cs)
      else (c # takeWhile (\<lambda>x. \<not> isspace x) cs)
             # split_ws (dropWhile (\<lambda>x. \<not> isspace x) cs))"
  by pat_completeness auto
termination
  by (relation "measure length") (auto simp: less_Suc_eq_le length_dropWhile_le)

text \<open>\<^verbatim>\<open>s.split(sep)\<close> for a one-character separator: never an empty list.\<close>

fun split_on :: "char \<Rightarrow> string \<Rightarrow> string list" where
  "split_on sep [] = [[]]"
| "split_on sep (c # cs) =
     (if c = sep then [] # split_on sep cs
      else (case split_on sep cs of
              [] \<Rightarrow> [[c]]
            | p # ps \<Rightarrow> (c # p) # ps))"

text \<open>\<^verbatim>\<open>kw in s\<close>: \<open>kw\<close> occurs in \<open>s\<close> as a contiguous substring.\<close>

fun py_in :: "string \<Rightarrow> string \<Rightarrow> bool" where
  "py_in kw [] = (kw = [])"
| "py_in kw (c # cs) = (prefix kw (c # cs) \<or> py_in kw cs)"

section \<open>scoring.py\<close>

definition preprocess_text :: "string \<Rightarrow> string" where
  "preprocess_text text = collapse_ws (replace_newlines (strip text))"

subsection \<open>compute_keyword_score\<close>

record kw_result =
  score :: real
  found :: "string list"
  missing :: "string list"

text \<open>The list comprehension that builds \<^verbatim>\<open>keywords\<close>.\<close>

definition parse_keywords :: "env \<Rightarrow> cell \<Rightarrow> string list" where
  "parse_keywords e keyword_str =
     map (\<lambda>k. lower (strip k))
       (filter (\<lambda>k. strip k \<noteq> []) (split_on (CHR '','') (py_str e keyword_str)))"

text \<open>The loop over \<^verbatim>\<open>keywords\<close>, appending to \<^verbatim>\<open>found\<close> or to \<^verbatim>\<open>missing\<close>.\<close>

fun kw_loop :: "string \<Rightarrow> string list \<Rightarrow> string list \<times> string list \<Rightarrow> string list \<times> string list" where
  "kw_loop transcript_lower [] (fnd, mis) = (fnd, mis)"
| "kw_loop transcript_lower (kw # kws) (fnd, mis) =
     (if kw \<noteq> [] \<and> py_in kw transcript_lower
      then kw_loop transcript_lower kws (fnd @ [kw], mis)
      else kw_loop transcript_lower kws (fnd, mis @ [kw]))"

definition compute_keyword_score :: "env \<Rightarrow> string \<Rightarrow> cell \<Rightarrow> kw_result" where
  "compute_keyword_score e transcript keyword_str =
     (let transcript_lower = lower transcript;
          keywords = parse_keywords e keyword_str;
          (fnd, mis) = kw_loop transcript_lower keywords ([], []);
          coverage = (if length keywords = 0 then 1
                      else real (length fnd) / real (length keywords))
      in \<lparr>score = coverage, found = fnd, missing = mis\<rparr>)"

subsection \<open>compute_length_penalty\<close>

record length_info =
  penalty :: real
  suggestion :: string

text \<open>
  The comparisons and the arithmetic of a branch are reached only for a finite bound, so
  they are written on its real value. The comparison of the integer word count with a
  float is exact in Python. The word count is the length of a list, far below \<open>2 ^ 53\<close>,
  so its conversion to a float is exact; every operation on floats is rounded, and the
  literal \<^verbatim>\<open>0.4\<close> is the double \<open>fl (4 / 10)\<close>. \<open>too_long\<close> is the \<^verbatim>\<open>elif\<close> branch
  and what follows it; it is evaluated only where the test for the minimum has failed.
\<close>

definition compute_length_penalty :: "int \<Rightarrow> pyfloat \<Rightarrow> pyfloat \<Rightarrow> length_info" where
  "compute_length_penalty word_count min_words max_words =
     (let unchanged = \<lparr>penalty = 1, suggestion = []\<rparr>;
          too_long =
            (case max_words of
               Fin mx \<Rightarrow>
                 if mx < of_int word_count then
                   (let diff = fl (of_int word_count - mx)
                    in \<lparr>penalty = max (fl (4 / 10)) (fl (1 - fl (diff / max mx 1))),
                        suggestion = ''Too long by about '' @ str_int (py_int diff)
                          @ '' words. Try being a bit more concise.''\<rparr>)
                 else unchanged
             | _ \<Rightarrow> unchanged)
      in if \<not> (isfinite min_words \<or> isfinite max_words) then unchanged
         else (case min_words of
                 Fin mn \<Rightarrow>
                   if of_int word_count < mn then
                     (let diff = fl (mn - of_int word_count)
                      in \<lparr>penalty = max (fl (4 / 10)) (fl (1 - fl (diff / max mn 1))),
                          suggestion = ''Too short by about '' @ str_int (py_int diff)
                            @ '' words. Try adding a bit more detail.''\<rparr>)
                   else too_long
               | _ \<Rightarrow> too_long))"

subsection \<open>compute_semantic_score\<close>

definition compute_semantic_score :: "env \<Rightarrow> string \<Rightarrow> cell \<Rightarrow> real" where
  "compute_semantic_score e transcript rubric_description =
     (case model e of
        None \<Rightarrow> 1 / 2
      | Some similarity \<Rightarrow> (similarity transcript (py_str e rubric_description) + 1) / 2)"

subsection \<open>Reading a rubric row\<close>

text \<open>
  A row is the list of its (column, value) pairs in column order; column names are
  distinct, so \<^verbatim>\<open>col in row\<close> is \<open>map_of row col \<noteq> None\<close> and \<^verbatim>\<open>row[col]\<close> is
  the value found.
\<close>

text \<open>The first loop of \<^verbatim>\<open>_get_criterion_name\<close>, over the candidate column names.\<close>

fun first_named :: "row \<Rightarrow> string list \<Rightarrow> cell option" where
  "first_named r [] = None"
| "first_named r (col # cols) =
     (case map_of r col of
        Some v \<Rightarrow> if notna v then Some v else first_named r cols
      | None \<Rightarrow> first_named r cols)"

text \<open>Its second loop, over the values of the row.\<close>

fun first_notna :: "cell list \<Rightarrow> cell option" where
  "first_notna [] = None"
| "first_notna (v # vs) = (if notna v then Some v else first_notna vs)"

definition get_criterion_name :: "env \<Rightarrow> row \<Rightarrow> string" where
  "get_criterion_name e r =
     (case first_named r [''Criterion'', ''Criteria'', ''Parameter'', ''Aspect''] of
        Some v \<Rightarrow> strip (py_str e v)
      | None \<Rightarrow>
          (case first_notna (map snd r) of
             Some v \<Rightarrow> strip (py_str e v)
           | None \<Rightarrow> ''Unnamed Criterion''))"

fun get_first_existing :: "row \<Rightarrow> string list \<Rightarrow> cell" where
  "get_first_existing r [] = Num NaN"
| "get_first_existing r (col # candidates) =
     (case map_of r col of
        Some v \<Rightarrow> v
      | None \<Rightarrow> get_first_existing r candidates)"

subsection \<open>score_transcript\<close>

record criterion_result =
  criterion :: string
  weight :: pyfloat
  keyword_score :: real
  semantic_score :: real
  length_penalty :: real
  final_score_0_1 :: real
  keywords_found :: "string list"
  keywords_missing :: "string list"
  length_feedback :: string

record scoring_result =
  overall_score :: pyfloat
  word_count :: nat
  per_criterion :: "criterion_result list"

text \<open>The \<^verbatim>\<open>try\<close> block around the weight: any failure of \<^verbatim>\<open>float\<close> gives 1.0.\<close>

definition get_weight :: "env \<Rightarrow> row \<Rightarrow> pyfloat" where
  "get_weight e r =
     (let weight_raw = get_first_existing r [''Weight'', ''Weights'', ''MaxScore'']
      in if notna weight_raw
         then (case py_float e weight_raw of Inr w \<Rightarrow> w | Inl _ \<Rightarrow> Fin 1)
         else Fin 1)"

text \<open>\<^verbatim>\<open>float(v) if pd.notna(v) else np.nan\<close>, outside any \<^verbatim>\<open>try\<close>.\<close>

definition to_bound :: "env \<Rightarrow> cell \<Rightarrow> error + pyfloat" where
  "to_bound e v = (if notna v then py_float e v else Inr NaN)"

text \<open>
  One iteration of the loop over the rows: the dictionary appended to the results, and
  \<^verbatim>\<open>final_score_0_1\<close> before rounding.
\<close>

definition score_row :: "env \<Rightarrow> string \<Rightarrow> nat \<Rightarrow> row \<Rightarrow> error + criterion_result \<times> real" where
  "score_row e transcript wc r =
     (let criterion_name = get_criterion_name e r;
          description =
            get_first_existing r [''Description'', ''Criteria Description'', ''Detail'', ''Details''];
          keywords = get_first_existing r [''Keywords'', ''Keyword'', ''Key words'', ''KeyWords''];
          w = get_weight e r
      in case to_bound e (get_first_existing r [''MinWords'', ''Min Words'']) of
           Inl err \<Rightarrow> Inl err
         | Inr min_words \<Rightarrow>
             (case to_bound e (get_first_existing r [''MaxWords'', ''Max Words'']) of
                Inl err \<Rightarrow> Inl err
              | Inr max_words \<Rightarrow>
                  (let kw_res = compute_keyword_score e transcript keywords;
                       semantic = compute_semantic_score e transcript description;
                       length_inf = compute_length_penalty (int wc) min_words max_words;
                       base_score = 1 / 2 * score kw_res + 1 / 2 * semantic;
                       final = base_score * penalty length_inf
                   in Inr (\<lparr>criterion = criterion_name,
                            weight = w,
                            keyword_score = round_real (score kw_res) 3,
                            semantic_score = round_real semantic 3,
                            length_penalty = round_real (penalty length_inf) 3,
                            final_score_0_1 = round_real final 3,
                            keywords_found = found kw_res,
                            keywords_missing = missing kw_res,
                            length_feedback = suggestion length_inf\<rparr>, final))))"

text \<open>
  The loop, with its state: the results so far, \<^verbatim>\<open>weighted_sum\<close> and
  \<^verbatim>\<open>total_weight\<close>. An exception in a row ends it.
\<close>

fun score_rows ::
  "env \<Rightarrow> string \<Rightarrow> nat \<Rightarrow> row list \<Rightarrow> criterion_result list \<times> pyfloat \<times> pyfloat
     \<Rightarrow> error + criterion_result list \<times> pyfloat \<times> pyfloat" where
  "score_rows e transcript wc [] st = Inr st"
| "score_rows e transcript wc (r # rs) (results, weighted_sum, total_weight) =
     (case score_row e transcript wc r of
        Inl err \<Rightarrow> Inl err
      | Inr (res, final) \<Rightarrow>
          score_rows e transcript wc rs
            (results @ [res],
             fadd weighted_sum (fmul (Fin final) (weight res)),
             fadd total_weight (weight res)))"

definition score_transcript :: "env \<Rightarrow> string \<Rightarrow> row list \<Rightarrow> error + scoring_result" where
  "score_transcript e transcript0 rubric_df =
     (let transcript = preprocess_text transcript0;
          wc = length (split_ws transcript)
      in case score_rows e transcript wc rubric_df ([], Fin 0, Fin 0) of
           Inl err \<Rightarrow> Inl err
         | Inr (results, weighted_sum, total_weight) \<Rightarrow>
             (case (if total_weight = Fin 0 then Inr (Fin 0)
                    else fdiv weighted_sum total_weight) of
                Inl err \<Rightarrow> Inl err
              | Inr overall_0_1 \<Rightarrow>
                  Inr \<lparr>overall_score = py_round (fmul overall_0_1 (Fin 100)) 2,
                       word_count = wc,
                       per_criterion = results\<rparr>))"

section \<open>Auxiliary notions\<close>

text \<open>
  The shape of a normalised text: whitespace occurs only as single spaces between
  other characters (\<open>single_spaced\<close>), and not at either end (\<open>trimmed\<close>).
\<close>

fun single_spaced :: "string \<Rightarrow> bool" where
  "single_spaced [] = True"
| "single_spaced (c # cs) =
     (if isspace c
      then c = CHR 0x20 \<and> (case cs of [] \<Rightarrow> True | d # _ \<Rightarrow> \<not> isspace d) \<and> single_spaced cs
      else single_spaced cs)"

definition trimmed :: "string \<Rightarrow> bool" where
  "trimmed s = (s = [] \<or> (\<not> isspace (hd s) \<and> \<not> isspace (last s)))"

text \<open>The columns \<^verbatim>\<open>_get_criterion_name\<close> tries for the name, in its order.\<close>

abbreviation name_columns :: "string list" where
  "name_columns \<equiv> [''Criterion'', ''Criteria'', ''Parameter'', ''Aspect'']"

text \<open>An environment for examples: no embedding model, no number formatting.\<close>

definition plain_env :: env where
  "plain_env = \<lparr>num_repr = (\<lambda>_. []), parse_float = (\<lambda>_. None), model = None\<rparr>"

section \<open>Text normalisation\<close>

lemma isspace_space: "isspace (CHR 0x20)" by (simp add: isspace_def)
lemma isspace_newline: "isspace (CHR 0x0A)" by (simp add: isspace_def)

lemma dropWhile_head: "dropWhile P xs = y # ys \<Longrightarrow> \<not> P y"
  by (metis hd_dropWhile list.sel(1) list.distinct(1))

lemma dropWhile_unchanged: "xs \<noteq> [] \<Longrightarrow> \<not> P (hd xs) \<Longrightarrow> dropWhile P xs = xs"
  by (cases xs) simp_all

lemma single_spaced_collapse_ws: "single_spaced (collapse_ws s)"
proof (induction s rule: collapse_ws.induct)
  case 1
  show ?case by simp
next
  case (2 c cs)
  show ?case
  proof (cases "isspace c")
    case True
    have "case collapse_ws (dropWhile isspace cs) of [] \<Rightarrow> True | d # _ \<Rightarrow> \<not> isspace d"
    proof (cases "dropWhile isspace cs")
      case Nil
      show ?thesis by (simp only: Nil collapse_ws.simps list.case)
    next
      case (Cons y ys)
      then have "\<not> isspace y" by (rule dropWhile_head)
      with Cons show ?thesis by simp
    qed
    with True 2 show ?thesis by (simp add: isspace_space)
  next
    case False
    with 2 show ?thesis by simp
  qed
qed

lemma collapse_ws_fixed: "single_spaced s \<Longrightarrow> collapse_ws s = s"
proof (induction s)
  case Nil
  show ?case by simp
next
  case (Cons c cs)
  show ?case
  proof (cases "isspace c")
    case True
    with Cons.prems have c: "c = CHR 0x20" and nxt: "case cs of [] \<Rightarrow> True | d # _ \<Rightarrow> \<not> isspace d"
      and rest: "single_spaced cs" by simp_all
    from nxt have "dropWhile isspace cs = cs" by (cases cs) simp_all
    with True c rest Cons.IH show ?thesis by simp
  next
    case False
    with Cons show ?thesis by simp
  qed
qed

lemma single_spaced_only_space: "single_spaced s \<Longrightarrow> c \<in> set s \<Longrightarrow> isspace c \<Longrightarrow> c = CHR 0x20"
  by (induction s) (auto split: if_splits)

lemma replace_newlines_fixed: "single_spaced s \<Longrightarrow> replace_newlines s = s"
proof -
  assume s: "single_spaced s"
  have "\<And>c. c \<in> set s \<Longrightarrow> (if c = CHR 0x0A then CHR 0x20 else c) = c"
    using single_spaced_only_space [OF s] isspace_newline by auto
  then show ?thesis unfolding replace_newlines_def by (simp add: map_idI)
qed

lemma strip_fixed: "trimmed s \<Longrightarrow> strip s = s"
proof (cases s)
  case Nil
  then show ?thesis by (simp add: strip_def)
next
  case (Cons c cs)
  assume "trimmed s"
  with Cons have h: "\<not> isspace c" and l: "\<not> isspace (last s)" by (simp_all add: trimmed_def)
  from h Cons have a: "dropWhile isspace s = s" by simp
  from Cons have "rev s \<noteq> []" by simp
  moreover have "hd (rev s) = last s" using Cons by (simp add: hd_rev)
  ultimately have "dropWhile isspace (rev s) = rev s" using l by (simp add: dropWhile_unchanged)
  with a show ?thesis by (simp add: strip_def)
qed

lemma last_dropWhile: "dropWhile P xs \<noteq> [] \<Longrightarrow> last (dropWhile P xs) = last xs"
  by (induction xs) (auto split: if_splits)

lemma dropWhile_keeps_last: "xs \<noteq> [] \<Longrightarrow> \<not> P (last xs) \<Longrightarrow> dropWhile P xs \<noteq> []"
  by (induction xs) (auto split: if_splits)

lemma trimmed_strip: "trimmed (strip s)"
proof -
  define a where "a = dropWhile isspace s"
  define b where "b = dropWhile isspace (rev a)"
  have s: "strip s = rev b" by (simp add: strip_def a_def b_def)
  show ?thesis
  proof (cases "b = []")
    case True
    with s show ?thesis by (simp add: trimmed_def)
  next
    case False
    then have hb: "\<not> isspace (hd b)" unfolding b_def by (metis hd_dropWhile)
    from False have ra: "rev a \<noteq> []" unfolding b_def by auto
    then have "a \<noteq> []" by simp
    then have ha: "\<not> isspace (hd a)" unfolding a_def by (metis hd_dropWhile)
    from False have "last b = last (rev a)" unfolding b_def by (rule last_dropWhile)
    also have "\<dots> = hd a" using \<open>a \<noteq> []\<close> by (simp add: last_rev)
    finally have lb: "\<not> isspace (last b)" using ha by simp
    from False have "hd (rev b) = last b" "last (rev b) = hd b" by (simp_all add: hd_rev last_rev)
    with hb lb s False show ?thesis by (simp add: trimmed_def)
  qed
qed

lemma trimmed_replace_newlines: "trimmed s \<Longrightarrow> trimmed (replace_newlines s)"
proof (cases "s = []")
  case True
  then show ?thesis by (simp add: trimmed_def replace_newlines_def)
next
  case False
  assume "trimmed s"
  with False have h: "\<not> isspace (hd s)" and l: "\<not> isspace (last s)" by (simp_all add: trimmed_def)
  from h l isspace_newline have "hd s \<noteq> CHR 0x0A" "last s \<noteq> CHR 0x0A" by auto
  with False h l show ?thesis
    by (simp add: trimmed_def replace_newlines_def hd_map last_map)
qed

lemma collapse_ws_last:
  "s \<noteq> [] \<Longrightarrow> \<not> isspace (last s) \<Longrightarrow> collapse_ws s \<noteq> [] \<and> last (collapse_ws s) = last s"
proof (induction s rule: collapse_ws.induct)
  case 1
  then show ?case by simp
next
  case (2 c cs)
  show ?case
  proof (cases "cs = []")
    case True
    with 2 show ?thesis by simp
  next
    case False
    with 2 have l: "\<not> isspace (last cs)" by simp
    show ?thesis
    proof (cases "isspace c")
      case True
      from False l have ne: "dropWhile isspace cs \<noteq> []" by (rule dropWhile_keeps_last)
      then have "last (dropWhile isspace cs) = last cs" by (rule last_dropWhile)
      with 2 True ne l False show ?thesis by simp
    next
      case c: False
      with 2 False l show ?thesis by simp
    qed
  qed
qed

lemma trimmed_collapse_ws: "trimmed s \<Longrightarrow> trimmed (collapse_ws s)"
proof (cases s)
  case Nil
  then show ?thesis by (simp add: trimmed_def)
next
  case (Cons c cs)
  assume "trimmed s"
  with Cons have h: "\<not> isspace c" and l: "\<not> isspace (last s)" by (simp_all add: trimmed_def)
  from Cons l have "collapse_ws s \<noteq> [] \<and> last (collapse_ws s) = last s"
    by (intro collapse_ws_last) simp_all
  moreover from h Cons have "hd (collapse_ws s) = c" by simp
  ultimately show ?thesis using h l by (simp add: trimmed_def)
qed

text \<open>
  C9. Text normalisation is idempotent: normalising a normalised text returns it
  unchanged, for every input string.
\<close>

theorem preprocess_text_idempotent:
  "preprocess_text (preprocess_text s) = preprocess_text s"
proof -
  let ?t = "preprocess_text s"
  have t: "trimmed ?t"
    unfolding preprocess_text_def
    by (intro trimmed_collapse_ws trimmed_replace_newlines trimmed_strip)
  have ss: "single_spaced ?t"
    unfolding preprocess_text_def by (rule single_spaced_collapse_ws)
  from t have "strip ?t = ?t" by (rule strip_fixed)
  moreover from ss have "replace_newlines ?t = ?t" by (rule replace_newlines_fixed)
  moreover from ss have "collapse_ws ?t = ?t" by (rule collapse_ws_fixed)
  ultimately show ?thesis by (simp add: preprocess_text_def)
qed

section \<open>Keyword coverage\<close>

lemma py_in_sublist: "py_in kw s = sublist kw s"
  by (induction s) (auto simp: sublist_Cons_right)

lemma kw_loop_filter:
  "kw_loop t kws (fnd, mis) =
     (fnd @ filter (\<lambda>kw. kw \<noteq> [] \<and> py_in kw t) kws,
      mis @ filter (\<lambda>kw. \<not> (kw \<noteq> [] \<and> py_in kw t)) kws)"
  by (induction kws arbitrary: fnd mis) simp_all

lemma parse_keywords_nonempty: "kw \<in> set (parse_keywords e k) \<Longrightarrow> kw \<noteq> []"
  by (auto simp: parse_keywords_def lower_def)

lemma filter_hits:
  "filter (\<lambda>kw. kw \<noteq> [] \<and> py_in kw t) (parse_keywords e k)
     = filter (\<lambda>kw. sublist kw t) (parse_keywords e k)"
  by (rule filter_cong) (auto simp: py_in_sublist dest: parse_keywords_nonempty)

lemma filter_misses:
  "filter (\<lambda>kw. kw = [] \<or> \<not> py_in kw t) (parse_keywords e k)
     = filter (\<lambda>kw. \<not> sublist kw t) (parse_keywords e k)"
  by (rule filter_cong) (auto simp: py_in_sublist dest: parse_keywords_nonempty)

lemma lower_char_idem: "lower_char (lower_char c) = lower_char c"
  by (auto simp: lower_char_def Let_def)

lemma lower_idem: "lower (lower s) = lower s"
  by (simp add: lower_def lower_char_idem)

text \<open>
  C5. The keyword list is the list of the comma-separated tokens of the keywords value
  that are not blank, each stripped and lower-cased; a keyword equals its own lower-case
  form. \<^verbatim>\<open>found\<close> is the sublist of the keywords that occur as substrings of the
  lower-cased transcript and \<^verbatim>\<open>missing\<close> the sublist of those that do not, both in the
  original order and with duplicates kept: a token is found exactly when its stripped
  lower-case form occurs in the lower-cased transcript, whatever the case of either. The
  score is 1 for an empty keyword list and otherwise the number found divided by the number
  of keywords; it lies between 0 and 1.
\<close>

theorem compute_keyword_score_coverage:
  "let tokens = filter (\<lambda>k. strip k \<noteq> []) (split_on (CHR '','') (py_str e keyword_str));
       keywords = parse_keywords e keyword_str;
       res = compute_keyword_score e transcript keyword_str;
       hit = (\<lambda>kw. sublist kw (lower transcript))
   in keywords = map (\<lambda>k. lower (strip k)) tokens \<and>
      (\<forall>kw\<in>set keywords. lower kw = kw) \<and>
      found res = filter hit keywords \<and>
      missing res = filter (\<lambda>kw. \<not> hit kw) keywords \<and>
      found res = map (\<lambda>k. lower (strip k))
                    (filter (\<lambda>k. sublist (lower (strip k)) (lower transcript)) tokens) \<and>
      missing res = map (\<lambda>k. lower (strip k))
                      (filter (\<lambda>k. \<not> sublist (lower (strip k)) (lower transcript)) tokens) \<and>
      score res = (if keywords = [] then 1
                   else real (length (filter hit keywords)) / real (length keywords)) \<and>
      0 \<le> score res \<and> score res \<le> 1"
proof -
  let ?toks = "filter (\<lambda>k. strip k \<noteq> []) (split_on (CHR '','') (py_str e keyword_str))"
  let ?ks = "parse_keywords e keyword_str"
  let ?hit = "\<lambda>kw. sublist kw (lower transcript)"
  let ?res = "compute_keyword_score e transcript keyword_str"
  have k: "?ks = map (\<lambda>k. lower (strip k)) ?toks"
    by (simp add: parse_keywords_def)
  have l: "\<forall>kw\<in>set ?ks. lower kw = kw"
    by (auto simp: k lower_idem)
  have f: "found ?res = filter ?hit ?ks"
    by (simp add: compute_keyword_score_def kw_loop_filter filter_hits Let_def)
  have m: "missing ?res = filter (\<lambda>kw. \<not> ?hit kw) ?ks"
    by (simp add: compute_keyword_score_def kw_loop_filter filter_misses Let_def)
  have f': "found ?res = map (\<lambda>k. lower (strip k))
      (filter (\<lambda>k. sublist (lower (strip k)) (lower transcript)) ?toks)"
    unfolding f k by (simp add: filter_map comp_def)
  have m': "missing ?res = map (\<lambda>k. lower (strip k))
      (filter (\<lambda>k. \<not> sublist (lower (strip k)) (lower transcript)) ?toks)"
    unfolding m k by (simp add: filter_map comp_def)
  have s: "score ?res = (if ?ks = [] then 1
             else real (length (filter ?hit ?ks)) / real (length ?ks))"
    by (simp add: compute_keyword_score_def kw_loop_filter filter_hits Let_def)
  have "length (filter ?hit ?ks) \<le> length ?ks" by (rule length_filter_le)
  then have b: "?ks \<noteq> [] \<Longrightarrow> real (length (filter ?hit ?ks)) / real (length ?ks) \<le> 1"
    by (simp add: divide_le_eq_1)
  have r: "0 \<le> score ?res \<and> score ?res \<le> 1"
    using s b by auto
  show ?thesis
    unfolding Let_def using k l f m f' m' s r by blast
qed

theorem compute_keyword_score_coverage_witness:
  "parse_keywords plain_env (Text ''Python, JAVA , py'') = [''python'', ''java'', ''py''] \<and>
   found (compute_keyword_score plain_env ''I know PYTHON'' (Text ''Python, JAVA , py''))
     = [''python'', ''py''] \<and>
   missing (compute_keyword_score plain_env ''I know PYTHON'' (Text ''Python, JAVA , py''))
     = [''java''] \<and>
   score (compute_keyword_score plain_env ''I know PYTHON'' (Text ''Python, JAVA , py'')) = 2 / 3 \<and>
   found (compute_keyword_score plain_env ''I know python and java'' (Text ''Python, JAVA''))
     = [''python'', ''java''] \<and>
   score (compute_keyword_score plain_env ''I know python and java'' (Text ''Python, JAVA'')) = 1 \<and>
   parse_keywords plain_env (Text '' , '') = [] \<and>
   score (compute_keyword_score plain_env ''I know PYTHON'' (Text '' , '')) = 1"
proof -
  have k: "parse_keywords plain_env (Text ''Python, JAVA , py'') = [''python'', ''java'', ''py'']"
    "parse_keywords plain_env (Text ''Python, JAVA'') = [''python'', ''java'']"
    "parse_keywords plain_env (Text '' , '') = []"
    by code_simp+
  have l: "lower ''I know PYTHON'' = ''i know python''"
    "lower ''I know python and java'' = ''i know python and java''"
    by code_simp+
  have h: "sublist ''python'' ''i know python''" "\<not> sublist ''java'' ''i know python''"
    "sublist ''py'' ''i know python''"
    "sublist ''python'' ''i know python and java''" "sublist ''java'' ''i know python and java''"
    by (simp_all add: sublist_Cons_right)
  show ?thesis
    using compute_keyword_score_coverage [of plain_env "Text ''Python, JAVA , py''" "''I know PYTHON''"]
      compute_keyword_score_coverage [of plain_env "Text ''Python, JAVA''" "''I know python and java''"]
      compute_keyword_score_coverage [of plain_env "Text '' , ''" "''I know PYTHON''"]
    by (simp add: Let_def k l h)
qed

text \<open>
  C1. A row without a keywords column: \<^verbatim>\<open>_get_first_existing\<close> returns NaN, whose string
  form is \<^verbatim>\<open>nan\<close>, so the keyword list is \<^verbatim>\<open>["nan"]\<close> and not empty. On a transcript
  without that substring the score is 0 with \<^verbatim>\<open>nan\<close> reported missing; on a transcript with
  it \<^verbatim>\<open>nan\<close> is reported found.
\<close>

theorem absent_keywords_become_nan:
  "get_first_existing [(''Criterion'', Text ''Clarity'')]
     [''Keywords'', ''Keyword'', ''Key words'', ''KeyWords''] = Num NaN \<and>
   parse_keywords e (Num NaN) = [''nan''] \<and>
   compute_keyword_score e ''hello world'' (Num NaN)
     = \<lparr>score = 0, found = [], missing = [''nan'']\<rparr> \<and>
   compute_keyword_score e ''i study finance'' (Num NaN)
     = \<lparr>score = 1, found = [''nan''], missing = []\<rparr> \<and>
   score_transcript plain_env ''hello world'' [[(''Criterion'', Text ''Clarity'')]]
     = Inr \<lparr>overall_score = Fin 25, word_count = 2,
            per_criterion =
              [\<lparr>criterion = ''Clarity'', weight = Fin 1, keyword_score = 0,
                 semantic_score = 1 / 2, length_penalty = 1, final_score_0_1 = 1 / 4,
                 keywords_found = [], keywords_missing = [''nan''], length_feedback = []\<rparr>]\<rparr>"
proof -
  have column: "get_first_existing [(''Criterion'', Text ''Clarity'')]
     [''Keywords'', ''Keyword'', ''Key words'', ''KeyWords''] = Num NaN"
    by simp
  have kws: "parse_keywords e (Num NaN) = [''nan'']"
    by (simp add: parse_keywords_def py_str_def strip_def isspace_def lower_def lower_char_def)
  have absent: "compute_keyword_score e ''hello world'' (Num NaN)
     = \<lparr>score = 0, found = [], missing = [''nan'']\<rparr>"
    by (simp add: compute_keyword_score_def kws lower_def lower_char_def)
  have present: "compute_keyword_score e ''i study finance'' (Num NaN)
     = \<lparr>score = 1, found = [''nan''], missing = []\<rparr>"
    by (simp add: compute_keyword_score_def kws lower_def lower_char_def)
  have whole: "score_transcript plain_env ''hello world'' [[(''Criterion'', Text ''Clarity'')]]
     = Inr \<lparr>overall_score = Fin 25, word_count = 2,
            per_criterion =
              [\<lparr>criterion = ''Clarity'', weight = Fin 1, keyword_score = 0,
                 semantic_score = 1 / 2, length_penalty = 1, final_score_0_1 = 1 / 4,
                 keywords_found = [], keywords_missing = [''nan''], length_feedback = []\<rparr>]\<rparr>"
    by code_simp
  from column kws absent present whole show ?thesis by simp
qed

section \<open>Rounding to doubles\<close>

lemma round_half_even_of_int: "round_half_even (of_int n) = n"
  by (simp add: round_half_even_def)

lemma round_half_even_mono: "x \<le> y \<Longrightarrow> round_half_even x \<le> round_half_even y"
proof -
  assume xy: "x \<le> y"
  have fl: "\<lfloor>x\<rfloor> \<le> \<lfloor>y\<rfloor>" using xy by (rule floor_mono)
  show ?thesis
  proof (cases "\<lfloor>x\<rfloor> = \<lfloor>y\<rfloor>")
    case True
    with xy show ?thesis unfolding round_half_even_def Let_def by auto
  next
    case False
    with fl have "\<lfloor>x\<rfloor> + 1 \<le> \<lfloor>y\<rfloor>" by simp
    moreover have "round_half_even x \<le> \<lfloor>x\<rfloor> + 1" unfolding round_half_even_def Let_def by auto
    moreover have "\<lfloor>y\<rfloor> \<le> round_half_even y" unfolding round_half_even_def Let_def by auto
    ultimately show ?thesis by linarith
  qed
qed

lemma floor_log2_bounds:
  assumes "0 < x"
  shows "2 powr of_int \<lfloor>log 2 x\<rfloor> \<le> x" and "x < 2 powr (of_int \<lfloor>log 2 x\<rfloor> + 1)"
proof -
  from assms have "(of_int \<lfloor>log 2 x\<rfloor> \<le> log 2 x) = (2 powr of_int \<lfloor>log 2 x\<rfloor> \<le> x)"
    by (intro le_log_iff) simp_all
  then show "2 powr of_int \<lfloor>log 2 x\<rfloor> \<le> x"
    using of_int_floor_le [of "log 2 x"] by blast
  from assms have "(log 2 x < of_int \<lfloor>log 2 x\<rfloor> + 1) = (x < 2 powr (of_int \<lfloor>log 2 x\<rfloor> + 1))"
    by (intro log_less_iff) simp_all
  moreover have "log 2 x < of_int \<lfloor>log 2 x\<rfloor> + 1" by linarith
  ultimately show "x < 2 powr (of_int \<lfloor>log 2 x\<rfloor> + 1)" by blast
qed

lemma floor_log2_unique:
  assumes "0 < x" "2 powr of_int k \<le> x" "x < 2 powr (of_int k + 1)"
  shows "\<lfloor>log 2 x\<rfloor> = k"
proof -
  have "of_int k \<le> log 2 x" using assms(1,2) by (simp add: le_log_iff)
  moreover have "log 2 x < of_int k + 1" using assms(1,3) by (simp add: log_less_iff)
  ultimately show ?thesis by (simp add: floor_unique)
qed

lemma fl_eval:
  assumes "2 powr of_int k \<le> \<bar>x\<bar>" "\<bar>x\<bar> < 2 powr (of_int k + 1)"
  shows "fl x = of_int (round_half_even (x / 2 powr of_int (k - 52))) * 2 powr of_int (k - 52)"
proof -
  have pos: "0 < \<bar>x\<bar>" using assms(1) by (smt (verit) powr_gt_zero)
  then have "\<lfloor>log 2 \<bar>x\<bar>\<rfloor> = k" using assms by (rule floor_log2_unique)
  moreover from pos have "x \<noteq> 0" by simp
  ultimately show ?thesis by (simp add: fl_def Let_def)
qed

lemma scaled_bounds:
  assumes "0 < x"
  defines "u \<equiv> 2 powr of_int (\<lfloor>log 2 x\<rfloor> - 52)"
  shows "2 ^ 52 \<le> x / u" and "x / u < 2 ^ 53"
proof -
  have u: "0 < u" by (simp add: u_def)
  have e: "2 powr of_int \<lfloor>log 2 x\<rfloor> = 2 ^ 52 * u"
    by (simp add: u_def powr_diff)
  have e1: "2 powr (of_int \<lfloor>log 2 x\<rfloor> + 1) = 2 ^ 53 * u"
    by (simp add: u_def powr_diff powr_add)
  from floor_log2_bounds(1) [OF assms(1)] e have "2 ^ 52 * u \<le> x" by simp
  with u show "2 ^ 52 \<le> x / u" by (simp add: le_divide_eq)
  from floor_log2_bounds(2) [OF assms(1)] e1 have "x < 2 ^ 53 * u" by simp
  with u show "x / u < 2 ^ 53" by (simp add: divide_less_eq)
qed

lemma fl_pos_bounds:
  assumes "0 < x"
  shows "2 powr of_int \<lfloor>log 2 x\<rfloor> \<le> fl x" and "fl x \<le> 2 powr (of_int \<lfloor>log 2 x\<rfloor> + 1)"
proof -
  define u :: real where "u = 2 powr of_int (\<lfloor>log 2 x\<rfloor> - 52)"
  have u: "0 < u" by (simp add: u_def)
  have f: "fl x = of_int (round_half_even (x / u)) * u"
    using assms by (simp add: fl_def u_def Let_def)
  have "round_half_even (of_int (2 ^ 52)) \<le> round_half_even (x / u)"
    using scaled_bounds(1) [OF assms] unfolding u_def by (intro round_half_even_mono) simp
  then have lo: "2 ^ 52 \<le> round_half_even (x / u)" by (simp only: round_half_even_of_int)
  have "round_half_even (x / u) \<le> round_half_even (of_int (2 ^ 53))"
    using scaled_bounds(2) [OF assms] unfolding u_def by (intro round_half_even_mono) simp
  then have hi: "round_half_even (x / u) \<le> 2 ^ 53" by (simp only: round_half_even_of_int)
  have e: "2 powr of_int \<lfloor>log 2 x\<rfloor> = 2 ^ 52 * u"
    by (simp add: u_def powr_diff)
  have e1: "2 powr (of_int \<lfloor>log 2 x\<rfloor> + 1) = 2 ^ 53 * u"
    by (simp add: u_def powr_diff powr_add)
  from lo have "(2 ^ 52 :: real) \<le> of_int (round_half_even (x / u))"
    by (metis of_int_le_iff of_int_numeral of_int_power)
  with u show "2 powr of_int \<lfloor>log 2 x\<rfloor> \<le> fl x" by (simp add: f e)
  from hi have "of_int (round_half_even (x / u)) \<le> (2 ^ 53 :: real)"
    by (metis of_int_le_iff of_int_numeral of_int_power)
  with u show "fl x \<le> 2 powr (of_int \<lfloor>log 2 x\<rfloor> + 1)" by (simp add: f e1)
qed

lemma fl_pos: "0 < x \<Longrightarrow> 0 < fl x"
  using fl_pos_bounds(1) [of x] by (smt (verit) powr_gt_zero)

lemma fl_nonpos: "x \<le> 0 \<Longrightarrow> fl x \<le> 0"
proof (cases "x = 0")
  case True
  then show ?thesis by (simp add: fl_def)
next
  case False
  assume "x \<le> 0"
  with False have neg: "x < 0" by simp
  define u :: real where "u = 2 powr of_int (\<lfloor>log 2 \<bar>x\<bar>\<rfloor> - 52)"
  have u: "0 < u" by (simp add: u_def)
  with neg have "x / u \<le> of_int 0" by (simp add: divide_le_0_iff)
  then have "round_half_even (x / u) \<le> round_half_even (of_int 0)"
    by (rule round_half_even_mono)
  then have "round_half_even (x / u) \<le> 0" by (simp only: round_half_even_of_int)
  then have "of_int (round_half_even (x / u)) * u \<le> 0"
    using u by (simp add: mult_le_0_iff)
  with False show ?thesis by (simp add: fl_def u_def Let_def)
qed

lemma fl_mono_pos:
  assumes "0 < x" "x \<le> y"
  shows "fl x \<le> fl y"
proof -
  from assms have y: "0 < y" by simp
  have le: "\<lfloor>log 2 x\<rfloor> \<le> \<lfloor>log 2 y\<rfloor>"
    using assms by (intro floor_mono) simp
  show ?thesis
  proof (cases "\<lfloor>log 2 x\<rfloor> = \<lfloor>log 2 y\<rfloor>")
    case True
    define u :: real where "u = 2 powr of_int (\<lfloor>log 2 y\<rfloor> - 52)"
    have u: "0 < u" by (simp add: u_def)
    have "x / u \<le> y / u" using assms(2) u by (simp add: divide_right_mono)
    then have "round_half_even (x / u) \<le> round_half_even (y / u)" by (rule round_half_even_mono)
    then have "of_int (round_half_even (x / u)) * u \<le> of_int (round_half_even (y / u)) * u"
      using u by simp
    with True assms(1) y show ?thesis by (simp add: fl_def u_def Let_def)
  next
    case False
    with le have "\<lfloor>log 2 x\<rfloor> + 1 \<le> \<lfloor>log 2 y\<rfloor>" by simp
    then have "(of_int \<lfloor>log 2 x\<rfloor> + 1 :: real) \<le> of_int \<lfloor>log 2 y\<rfloor>" by linarith
    then have "(2 :: real) powr (of_int \<lfloor>log 2 x\<rfloor> + 1) \<le> 2 powr of_int \<lfloor>log 2 y\<rfloor>"
      by (intro powr_mono) simp_all
    with fl_pos_bounds(2) [OF assms(1)] fl_pos_bounds(1) [OF y] show ?thesis by linarith
  qed
qed

lemma fl_mono: "x \<le> y \<Longrightarrow> 0 < y \<Longrightarrow> fl x \<le> fl y"
  using fl_mono_pos [of x y] fl_nonpos [of x] fl_pos [of y] by (cases "0 < x") auto

lemma fl_1: "fl 1 = 1"
  using fl_eval [of 0 1] by (simp add: round_half_even_def powr_minus)

text \<open>The double written \<^verbatim>\<open>0.4\<close>.\<close>

lemma fl_04: "fl (2 / 5) = 3602879701896397 / 9007199254740992"
  using fl_eval [of "- 2" "2 / 5"] by (simp add: round_half_even_def powr_minus)

lemma fl_04_bounds: "4 / 10 \<le> fl (4 / 10)" "fl (4 / 10) \<le> 1 / 2"
  by (simp_all add: fl_04)



lemma fl_values:
  "fl 3 = 3" "fl 4 = 4" "fl 5 = 5" "fl 53 = 53"
  "fl (1 / 2) = 1 / 2" "fl (3 / 2) = 3 / 2" "fl (- (1 / 2)) = - (1 / 2)"
  "fl (53 / 64) = 53 / 64" "fl (11 / 64) = 11 / 64"
  using fl_eval [of 1 3] fl_eval [of 2 4] fl_eval [of 2 5] fl_eval [of 5 53]
    fl_eval [of "- 1" "1 / 2"] fl_eval [of 0 "3 / 2"] fl_eval [of "- 1" "- (1 / 2)"]
    fl_eval [of "- 1" "53 / 64"] fl_eval [of "- 3" "11 / 64"]
  by (simp_all add: round_half_even_def powr_minus)




section \<open>Length penalty\<close>

lemma compute_length_penalty_finite:
  "compute_length_penalty wc (Fin a) (Fin b) =
     (if of_int wc < a then
        \<lparr>penalty = max (fl (4 / 10)) (fl (1 - fl (fl (a - of_int wc) / max a 1))),
         suggestion = ''Too short by about '' @ str_int (py_int (fl (a - of_int wc)))
           @ '' words. Try adding a bit more detail.''\<rparr>
      else if b < of_int wc then
        \<lparr>penalty = max (fl (4 / 10)) (fl (1 - fl (fl (of_int wc - b) / max b 1))),
         suggestion = ''Too long by about '' @ str_int (py_int (fl (of_int wc - b)))
           @ '' words. Try being a bit more concise.''\<rparr>
      else \<lparr>penalty = 1, suggestion = []\<rparr>)"
  by (simp add: compute_length_penalty_def isfinite_def Let_def)

lemma penalty_under:
  "mn = Fin a \<Longrightarrow> of_int wc < a \<Longrightarrow>
   compute_length_penalty wc mn mx =
     \<lparr>penalty = max (fl (4 / 10)) (fl (1 - fl (fl (a - of_int wc) / max a 1))),
      suggestion = ''Too short by about '' @ str_int (py_int (fl (a - of_int wc)))
        @ '' words. Try adding a bit more detail.''\<rparr>"
  by (simp add: compute_length_penalty_def isfinite_def Let_def)

lemma penalty_over:
  "mx = Fin b \<Longrightarrow> b < of_int wc \<Longrightarrow> \<not> (\<exists>a. mn = Fin a \<and> of_int wc < a) \<Longrightarrow>
   compute_length_penalty wc mn mx =
     \<lparr>penalty = max (fl (4 / 10)) (fl (1 - fl (fl (of_int wc - b) / max b 1))),
      suggestion = ''Too long by about '' @ str_int (py_int (fl (of_int wc - b)))
        @ '' words. Try being a bit more concise.''\<rparr>"
  by (cases mn) (simp_all add: compute_length_penalty_def isfinite_def Let_def)

lemma penalty_none:
  "\<not> (\<exists>a. mn = Fin a \<and> of_int wc < a) \<Longrightarrow> \<not> (\<exists>b. mx = Fin b \<and> b < of_int wc) \<Longrightarrow>
   compute_length_penalty wc mn mx = \<lparr>penalty = 1, suggestion = []\<rparr>"
  by (cases mn; cases mx) (simp_all add: compute_length_penalty_def isfinite_def Let_def)

text \<open>The clamped value of a branch, for a positive deficit or excess \<open>d\<close>.\<close>

lemma clamp_range:
  assumes "0 < d"
  shows "4 / 10 \<le> max (fl (4 / 10)) (fl (1 - fl (fl d / max m 1)))"
    and "max (fl (4 / 10)) (fl (1 - fl (fl d / max m 1))) \<le> 1"
proof -
  show "4 / 10 \<le> max (fl (4 / 10)) (fl (1 - fl (fl d / max m 1)))"
    using fl_04_bounds by (simp add: le_max_iff_disj)
  have "0 < fl d / max m 1" using fl_pos [OF assms] by (simp add: divide_pos_pos)
  then have "0 < fl (fl d / max m 1)" by (rule fl_pos)
  then have "1 - fl (fl d / max m 1) \<le> 1" by simp
  then have "fl (1 - fl (fl d / max m 1)) \<le> fl 1" by (rule fl_mono) simp
  then show "max (fl (4 / 10)) (fl (1 - fl (fl d / max m 1))) \<le> 1"
    using fl_1 fl_04_bounds by simp
qed


lemma penalty_range:
  "4 / 10 \<le> penalty (compute_length_penalty wc mn mx) \<and>
   penalty (compute_length_penalty wc mn mx) \<le> 1"
proof -
  consider (under) a where "mn = Fin a" "of_int wc < a"
    | (over) b where "mx = Fin b" "b < of_int wc" "\<not> (\<exists>a. mn = Fin a \<and> of_int wc < a)"
    | (none) "\<not> (\<exists>a. mn = Fin a \<and> of_int wc < a)" "\<not> (\<exists>b. mx = Fin b \<and> b < of_int wc)"
    by blast
  then show ?thesis
  proof cases
    case under
    then show ?thesis
      using clamp_range [of "a - of_int wc" a] by (simp add: penalty_under)
  next
    case over
    then show ?thesis
      using clamp_range [of "of_int wc - b" b] by (simp add: penalty_over)
  next
    case none
    then show ?thesis by (simp add: penalty_none)
  qed
qed

text \<open>
  C4. The length penalty lies between 0.4 and 1. It is 1 when neither bound is finite,
  when the word count lies between two finite bounds, and in general whenever the word
  count is neither under a finite minimum nor over a finite maximum (so also when only one
  bound is given and met). When the word count is under a finite minimum it is
  \<^verbatim>\<open>max(0.4, 1 - (min_words - word_count) / max(min_words, 1))\<close>. When the word count is
  over a finite maximum and not under a finite minimum it is
  \<^verbatim>\<open>max(0.4, 1 - (word_count - max_words) / max(max_words, 1))\<close>. Both expressions are
  evaluated in doubles, each operation rounded by \<open>fl\<close>.
\<close>

theorem length_penalty_value:
  "let p = penalty (compute_length_penalty wc mn mx) in
     4 / 10 \<le> p \<and> p \<le> 1 \<and>
     (\<not> isfinite mn \<and> \<not> isfinite mx \<longrightarrow> p = 1) \<and>
     (\<forall>a b. mn = Fin a \<and> mx = Fin b \<and> a \<le> of_int wc \<and> of_int wc \<le> b \<longrightarrow> p = 1) \<and>
     (\<not> (\<exists>a. mn = Fin a \<and> of_int wc < a) \<and> \<not> (\<exists>b. mx = Fin b \<and> b < of_int wc)
        \<longrightarrow> p = 1) \<and>
     (\<forall>a. mn = Fin a \<and> of_int wc < a \<longrightarrow>
        p = max (fl (4 / 10)) (fl (1 - fl (fl (a - of_int wc) / max a 1)))) \<and>
     (\<forall>b. mx = Fin b \<and> b < of_int wc \<and> \<not> (\<exists>a. mn = Fin a \<and> of_int wc < a) \<longrightarrow>
        p = max (fl (4 / 10)) (fl (1 - fl (fl (of_int wc - b) / max b 1))))"
proof -
  have absent: "\<not> isfinite mn \<and> \<not> isfinite mx \<longrightarrow> penalty (compute_length_penalty wc mn mx) = 1"
    by (simp add: compute_length_penalty_def)
  have within: "\<forall>a b. mn = Fin a \<and> mx = Fin b \<and> a \<le> of_int wc \<and> of_int wc \<le> b
      \<longrightarrow> penalty (compute_length_penalty wc mn mx) = 1"
    by (simp add: penalty_none)
  have met: "\<not> (\<exists>a. mn = Fin a \<and> of_int wc < a) \<and> \<not> (\<exists>b. mx = Fin b \<and> b < of_int wc)
      \<longrightarrow> penalty (compute_length_penalty wc mn mx) = 1"
    by (simp add: penalty_none)
  have under: "\<forall>a. mn = Fin a \<and> of_int wc < a \<longrightarrow>
      penalty (compute_length_penalty wc mn mx)
        = max (fl (4 / 10)) (fl (1 - fl (fl (a - of_int wc) / max a 1)))"
    by (simp add: penalty_under)
  have over: "\<forall>b. mx = Fin b \<and> b < of_int wc \<and> \<not> (\<exists>a. mn = Fin a \<and> of_int wc < a) \<longrightarrow>
      penalty (compute_length_penalty wc mn mx)
        = max (fl (4 / 10)) (fl (1 - fl (fl (of_int wc - b) / max b 1)))"
    by (simp add: penalty_over)
  show ?thesis
    unfolding Let_def using penalty_range [of wc mn mx] absent within met under over by blast
qed

theorem length_penalty_value_witness:
  "penalty (compute_length_penalty 3 NaN NaN) = 1 \<and>
   penalty (compute_length_penalty 7 (Fin 5) (Fin 10)) = 1 \<and>
   penalty (compute_length_penalty 11 (Fin 5) NaN) = 1 \<and>
   penalty (compute_length_penalty 3 NaN (Fin 10)) = 1 \<and>
   penalty (compute_length_penalty 3 PInf (Fin 10)) = 1 \<and>
   penalty (compute_length_penalty 5 (Fin 10) NaN) = 1 / 2 \<and>
   penalty (compute_length_penalty 11 (Fin 64) NaN) = fl (4 / 10) \<and>
   penalty (compute_length_penalty 12 (Fin 4) (Fin 8)) = 1 / 2 \<and>
   penalty (compute_length_penalty 12 NaN (Fin 8)) = 1 / 2"
  using length_penalty_value [of 3 NaN NaN] length_penalty_value [of 7 "Fin 5" "Fin 10"]
    length_penalty_value [of 11 "Fin 5" NaN] length_penalty_value [of 3 NaN "Fin 10"]
    length_penalty_value [of 3 PInf "Fin 10"]
    length_penalty_value [of 5 "Fin 10" NaN] length_penalty_value [of 11 "Fin 64" NaN]
    length_penalty_value [of 12 "Fin 4" "Fin 8"] length_penalty_value [of 12 NaN "Fin 8"]
  by (simp add: Let_def isfinite_def fl_values fl_04)

text \<open>
  The formula for a word count over the maximum does not hold when the word count is also
  under the minimum: with 5 words, a minimum of 10 and a maximum of 2 the penalty is 0.5,
  computed from the deficit, where the formula of the excess gives the double 0.4.
\<close>

theorem over_maximum_formula_counterexample:
  "(2 :: real) < of_int 5 \<and>
   penalty (compute_length_penalty 5 (Fin 10) (Fin 2)) = 1 / 2 \<and>
   max (fl (4 / 10)) (fl (1 - fl (fl (of_int 5 - 2) / max 2 1)))
     = 3602879701896397 / 9007199254740992"
  by (simp add: compute_length_penalty_finite fl_values fl_04)

text \<open>
  C6. For finite bounds the result is exactly one of three: the result of the
  under-minimum branch when the word count is under the minimum, otherwise the result of
  the over-maximum branch when it is over the maximum, otherwise no penalty; the three are
  different results. When the word count is both under the minimum and over the maximum,
  penalty and feedback are those of the deficit.
\<close>

theorem under_minimum_takes_priority:
  "let r = compute_length_penalty wc (Fin a) (Fin b);
       short = \<lparr>penalty = max (fl (4 / 10)) (fl (1 - fl (fl (a - of_int wc) / max a 1))),
                suggestion = ''Too short by about '' @ str_int (py_int (fl (a - of_int wc)))
                  @ '' words. Try adding a bit more detail.''\<rparr>;
       long = \<lparr>penalty = max (fl (4 / 10)) (fl (1 - fl (fl (of_int wc - b) / max b 1))),
               suggestion = ''Too long by about '' @ str_int (py_int (fl (of_int wc - b)))
                 @ '' words. Try being a bit more concise.''\<rparr>;
       unchanged = \<lparr>penalty = 1, suggestion = []\<rparr>
   in (of_int wc < a \<longrightarrow> r = short) \<and>
      (\<not> of_int wc < a \<and> b < of_int wc \<longrightarrow> r = long) \<and>
      (\<not> of_int wc < a \<and> \<not> b < of_int wc \<longrightarrow> r = unchanged) \<and>
      short \<noteq> long \<and> short \<noteq> unchanged \<and> long \<noteq> unchanged \<and>
      (of_int wc < a \<and> b < of_int wc \<longrightarrow> r = short \<and> r \<noteq> long)"
proof -
  let ?r = "compute_length_penalty wc (Fin a) (Fin b)"
  let ?short = "\<lparr>penalty = max (fl (4 / 10)) (fl (1 - fl (fl (a - of_int wc) / max a 1))),
                suggestion = ''Too short by about '' @ str_int (py_int (fl (a - of_int wc)))
                  @ '' words. Try adding a bit more detail.''\<rparr>"
  let ?long = "\<lparr>penalty = max (fl (4 / 10)) (fl (1 - fl (fl (of_int wc - b) / max b 1))),
               suggestion = ''Too long by about '' @ str_int (py_int (fl (of_int wc - b)))
                 @ '' words. Try being a bit more concise.''\<rparr>"
  have short: "?r = ?short" if "of_int wc < a"
    using that by (simp add: penalty_under)
  have long: "?r = ?long" if "\<not> of_int wc < a" "b < of_int wc"
    using that by (simp add: penalty_over)
  have unchanged: "?r = \<lparr>penalty = 1, suggestion = []\<rparr>" if "\<not> of_int wc < a" "\<not> b < of_int wc"
    using that by (simp add: penalty_none)
  have different: "?short \<noteq> ?long" "?short \<noteq> \<lparr>penalty = 1, suggestion = []\<rparr>"
    "?long \<noteq> \<lparr>penalty = 1, suggestion = []\<rparr>"
    by simp_all
  show ?thesis
    unfolding Let_def using short long unchanged different by metis
qed

theorem under_minimum_takes_priority_witness:
  "(5 :: real) < 10 \<and> (2 :: real) < 5 \<and>
   compute_length_penalty 5 (Fin 10) (Fin 2)
     = \<lparr>penalty = 1 / 2,
        suggestion = ''Too short by about 5 words. Try adding a bit more detail.''\<rparr>"
proof -
  have s: "str_int (py_int 5) = ''5''" by code_simp
  show ?thesis
    using under_minimum_takes_priority [of 5 10 2] by (simp add: Let_def s fl_values fl_04)
qed




section \<open>Reading a rubric row\<close>

lemma get_first_existing_skips_absent:
  "\<forall>c\<in>set pre. map_of r c = None \<Longrightarrow>
   get_first_existing r (pre @ cands) = get_first_existing r cands"
  by (induction pre) simp_all

text \<open>
  C2. \<^verbatim>\<open>_get_first_existing\<close> scans the candidate columns in their order and returns the
  value of the first one that is a column of the row, whether that value is missing or
  not; when no candidate is a column of the row it returns NaN.
\<close>

theorem get_first_existing_first_present:
  "((\<forall>c\<in>set pre. map_of r c = None) \<and> map_of r col = Some v
      \<longrightarrow> get_first_existing r (pre @ col # post) = v) \<and>
   ((\<forall>c\<in>set cands. map_of r c = None) \<longrightarrow> get_first_existing r cands = Num NaN)"
proof -
  have "get_first_existing r cands = Num NaN" if "\<forall>c\<in>set cands. map_of r c = None"
    using get_first_existing_skips_absent [OF that, of "[]"] by simp
  then show ?thesis
    by (auto simp: get_first_existing_skips_absent)
qed

theorem get_first_existing_first_present_witness:
  "map_of [(''Detail'', Text ''x''), (''Details'', Text ''y'')] ''Description'' = None \<and>
   map_of [(''Detail'', Text ''x''), (''Details'', Text ''y'')] ''Criteria Description'' = None \<and>
   map_of [(''Detail'', Text ''x''), (''Details'', Text ''y'')] ''Detail'' = Some (Text ''x'') \<and>
   get_first_existing [(''Detail'', Text ''x''), (''Details'', Text ''y'')]
     [''Description'', ''Criteria Description'', ''Detail'', ''Details''] = Text ''x'' \<and>
   get_first_existing [(''Criterion'', Text ''x'')] [''MinWords'', ''Min Words''] = Num NaN"
  using get_first_existing_first_present
    [of "[''Description'', ''Criteria Description'']"
        "[(''Detail'', Text ''x''), (''Details'', Text ''y'')]" "''Detail''" "Text ''x''"
        "[''Details'']" "[]"]
    get_first_existing_first_present
    [of "[]" "[(''Criterion'', Text ''x'')]" "''c''" "Text ''x''" "[]" "[''MinWords'', ''Min Words'']"]
  by simp

text \<open>
  A column that is present with a missing value is not skipped: in a row whose
  \<^verbatim>\<open>Description\<close> is NaN and whose \<^verbatim>\<open>Detail\<close> is the text \<^verbatim>\<open>x\<close>, the description
  resolves to NaN.
\<close>

theorem missing_value_not_skipped_counterexample:
  "map_of [(''Description'', Num NaN), (''Detail'', Text ''x'')] ''Description'' = Some (Num NaN) \<and>
   \<not> notna (Num NaN) \<and>
   map_of [(''Description'', Num NaN), (''Detail'', Text ''x'')] ''Detail'' = Some (Text ''x'') \<and>
   notna (Text ''x'') \<and>
   get_first_existing [(''Description'', Num NaN), (''Detail'', Text ''x'')]
     [''Description'', ''Criteria Description'', ''Detail'', ''Details''] = Num NaN"
  by (simp add: notna_def)

lemma dropWhile_all_iff: "(\<forall>x\<in>set (dropWhile P xs). P x) = (\<forall>x\<in>set xs. P x)"
  by (induction xs) auto

lemma strip_nonempty_iff: "(strip s \<noteq> []) = (\<exists>c\<in>set s. \<not> isspace c)"
  by (simp add: strip_def dropWhile_eq_Nil_conv dropWhile_all_iff)

lemma first_named_skips:
  "\<forall>c\<in>set pre. map_of r c = None \<or> map_of r c = Some (Num NaN) \<Longrightarrow>
   first_named r (pre @ cols) = first_named r cols"
  by (induction pre) (auto simp: notna_def)

lemma first_notna_skips:
  "\<forall>x\<in>set vs. \<not> notna x \<Longrightarrow> first_notna (vs @ ws) = first_notna ws"
  by (induction vs) auto

lemma first_named_none:
  "\<forall>c\<in>set cols. map_of r c = None \<or> map_of r c = Some (Num NaN) \<Longrightarrow> first_named r cols = None"
  using first_named_skips [of cols r "[]"] by simp

lemma first_notna_none: "\<forall>x\<in>set vs. \<not> notna x \<Longrightarrow> first_notna vs = None"
  using first_notna_skips [of vs "[]"] by simp

text \<open>
  C7. The criterion name is the stripped string form of the value of the first name
  column that is present with a non-missing value; when there is none, of the first
  non-missing value of the row; when there is none either, the placeholder
  \<^verbatim>\<open>Unnamed Criterion\<close>. The stripped string form of a value is non-empty exactly when it
  has a character that is not whitespace; the placeholder is non-empty.
\<close>

theorem get_criterion_name_resolution:
  "let absent = (\<lambda>c. map_of r c = None \<or> map_of r c = Some (Num NaN))
   in (name_columns = pre @ col # post \<and> (\<forall>c\<in>set pre. absent c) \<and>
         map_of r col = Some v \<and> notna v
         \<longrightarrow> get_criterion_name e r = strip (py_str e v)) \<and>
      ((\<forall>c\<in>set name_columns. absent c) \<and> map snd r = vs @ v # ws \<and>
         (\<forall>x\<in>set vs. \<not> notna x) \<and> notna v
         \<longrightarrow> get_criterion_name e r = strip (py_str e v)) \<and>
      ((\<forall>c\<in>set name_columns. absent c) \<and> (\<forall>x\<in>set (map snd r). \<not> notna x)
         \<longrightarrow> get_criterion_name e r = ''Unnamed Criterion'') \<and>
      (strip (py_str e v) \<noteq> []) = (\<exists>ch\<in>set (py_str e v). \<not> isspace ch) \<and>
      ''Unnamed Criterion'' \<noteq> []"
proof -
  let ?absent = "\<lambda>c. map_of r c = None \<or> map_of r c = Some (Num NaN)"
  have a: "get_criterion_name e r = strip (py_str e v)"
    if "name_columns = pre @ col # post" "\<forall>c\<in>set pre. ?absent c" "map_of r col = Some v" "notna v"
  proof -
    have "first_named r name_columns = first_named r (col # post)"
      unfolding that(1) using that(2) by (rule first_named_skips)
    also have "\<dots> = Some v" using that(3,4) by simp
    finally show ?thesis by (simp add: get_criterion_name_def)
  qed
  have b: "get_criterion_name e r = strip (py_str e v)"
    if "\<forall>c\<in>set name_columns. ?absent c" "map snd r = vs @ v # ws" "\<forall>x\<in>set vs. \<not> notna x" "notna v"
  proof -
    have n: "first_named r name_columns = None" using that(1) by (rule first_named_none)
    have "first_notna (map snd r) = first_notna (v # ws)"
      unfolding that(2) using that(3) by (rule first_notna_skips)
    also have "\<dots> = Some v" using that(4) by simp
    finally show ?thesis using n by (simp add: get_criterion_name_def)
  qed
  have c: "get_criterion_name e r = ''Unnamed Criterion''"
    if "\<forall>c\<in>set name_columns. ?absent c" "\<forall>x\<in>set (map snd r). \<not> notna x"
  proof -
    have n: "first_named r name_columns = None" using that(1) by (rule first_named_none)
    have "first_notna (map snd r) = None" using that(2) by (rule first_notna_none)
    with n show ?thesis by (simp add: get_criterion_name_def)
  qed
  show ?thesis
    unfolding Let_def using a b c strip_nonempty_iff [of "py_str e v"] by blast
qed

theorem get_criterion_name_resolution_witness:
  "get_criterion_name plain_env [(''Weight'', Num (Fin 2)), (''Criteria'', Text '' Clarity '')]
     = ''Clarity'' \<and>
   get_criterion_name plain_env [(''Criterion'', Num NaN), (''Topic'', Text ''Pace'')] = ''Pace'' \<and>
   get_criterion_name plain_env [(''Criterion'', Num NaN)] = ''Unnamed Criterion''"
proof -
  have s: "strip '' Clarity '' = ''Clarity''" "strip ''Pace'' = ''Pace''"
    by (simp_all add: strip_def isspace_def)
  show ?thesis
    using get_criterion_name_resolution
      [where pre = "[''Criterion'']" and col = "''Criteria''"
         and post = "[''Parameter'', ''Aspect'']"
         and r = "[(''Weight'', Num (Fin 2)), (''Criteria'', Text '' Clarity '')]"
         and v = "Text '' Clarity ''" and e = plain_env and vs = "[]" and ws = "[]"]
      get_criterion_name_resolution
      [where pre = "[]" and col = "''Criterion''"
         and post = "[''Criteria'', ''Parameter'', ''Aspect'']"
         and r = "[(''Criterion'', Num NaN), (''Topic'', Text ''Pace'')]"
         and v = "Text ''Pace''" and e = plain_env and vs = "[Num NaN]" and ws = "[]"]
      get_criterion_name_resolution
      [where pre = "[]" and col = "''Criterion''"
         and post = "[''Criteria'', ''Parameter'', ''Aspect'']"
         and r = "[(''Criterion'', Num NaN)]"
         and v = "Text ''Pace''" and e = plain_env and vs = "[]" and ws = "[]"]
    by (simp add: Let_def notna_def py_str_def s)
qed

text \<open>
  The name is empty for a row whose name cell is a blank text: the cell is not missing,
  and stripping it leaves nothing.
\<close>

theorem blank_name_counterexample:
  "map_of [(''Criterion'', Text '' ''), (''Weight'', Num (Fin 1))] ''Criterion'' = Some (Text '' '') \<and>
   notna (Text '' '') \<and>
   get_criterion_name plain_env [(''Criterion'', Text '' ''), (''Weight'', Num (Fin 1))] = []"
  by (simp add: get_criterion_name_def notna_def py_str_def strip_def isspace_def)

section \<open>The scoring loop\<close>




lemma round_real_half: "round_real (1 / 2) 3 = 1 / 2"
  by (simp add: round_real_def round_half_even_def)


lemma score_row_Inr:
  assumes "score_row e t wc r = Inr (c, f)"
  obtains mn mx where
    "to_bound e (get_first_existing r [''MinWords'', ''Min Words'']) = Inr mn"
    "to_bound e (get_first_existing r [''MaxWords'', ''Max Words'']) = Inr mx"
    "f = (1 / 2 * score (compute_keyword_score e t
            (get_first_existing r [''Keywords'', ''Keyword'', ''Key words'', ''KeyWords'']))
          + 1 / 2 * compute_semantic_score e t
            (get_first_existing r [''Description'', ''Criteria Description'', ''Detail'', ''Details'']))
         * penalty (compute_length_penalty (int wc) mn mx)"
    "weight c = get_weight e r"
    "semantic_score c = round_real (compute_semantic_score e t
        (get_first_existing r [''Description'', ''Criteria Description'', ''Detail'', ''Details''])) 3"
  using assms by (auto simp: score_row_def Let_def split: sum.splits)


lemma to_bound_model: "to_bound (e\<lparr>model := m\<rparr>) v = to_bound e v"
  by (cases v) (simp_all add: to_bound_def py_float_def)

lemma score_row_error_model:
  "score_row e t wc r = Inl err \<Longrightarrow> score_row (e\<lparr>model := m\<rparr>) t wc r = Inl err"
  by (auto simp: score_row_def Let_def to_bound_model split: sum.splits)

lemma score_row_return_model:
  "score_row e t wc r = Inr x \<Longrightarrow> \<exists>y. score_row (e\<lparr>model := m\<rparr>) t wc r = Inr y"
  by (auto simp: score_row_def Let_def to_bound_model split: sum.splits)

lemma score_rows_error_model:
  "score_rows e t wc rs st = Inl err \<Longrightarrow> score_rows (e\<lparr>model := m\<rparr>) t wc rs st' = Inl err"
proof (induction rs arbitrary: st st')
  case Nil
  then show ?case by simp
next
  case (Cons r rs)
  obtain a b c where st: "st = (a, b, c)" by (cases st)
  obtain a' b' c' where st': "st' = (a', b', c')" by (cases st')
  show ?case
  proof (cases "score_row e t wc r")
    case (Inl err')
    with Cons.prems st have "err' = err" by simp
    with Inl score_row_error_model [of e t wc r err m] st' show ?thesis by simp
  next
    case (Inr x)
    then obtain y where y: "score_row (e\<lparr>model := m\<rparr>) t wc r = Inr y"
      using score_row_return_model by blast
    obtain res f where x: "x = (res, f)" by (cases x)
    obtain res' f' where y': "y = (res', f')" by (cases y)
    from Cons.prems st Inr x
    have "score_rows e t wc rs (a @ [res], fadd b (fmul (Fin f) (weight res)), fadd c (weight res))
            = Inl err" by simp
    then have "score_rows (e\<lparr>model := m\<rparr>) t wc rs
        (a' @ [res'], fadd b' (fmul (Fin f') (weight res')), fadd c' (weight res')) = Inl err"
      by (rule Cons.IH)
    with y y' st' show ?thesis by simp
  qed
qed

lemma score_row_semantic_half:
  "model e = None \<Longrightarrow> score_row e t wc r = Inr (c, f) \<Longrightarrow> semantic_score c = 1 / 2"
  by (erule score_row_Inr) (simp add: compute_semantic_score_def round_real_half)

lemma score_rows_semantic_half:
  "model e = None \<Longrightarrow> score_rows e t wc rs (res0, s0, w0) = Inr (res, s, w) \<Longrightarrow>
   \<forall>c\<in>set res0. semantic_score c = 1 / 2 \<Longrightarrow> \<forall>c\<in>set res. semantic_score c = 1 / 2"
proof (induction rs arbitrary: res0 s0 w0)
  case Nil
  then show ?case by simp
next
  case (Cons r rs)
  from Cons.prems(2) obtain c f where
    row: "score_row e t wc r = Inr (c, f)" and
    rest: "score_rows e t wc rs (res0 @ [c], fadd s0 (fmul (Fin f) (weight c)), fadd w0 (weight c))
             = Inr (res, s, w)"
    by (auto split: sum.splits)
  from Cons.prems(1) row have "semantic_score c = 1 / 2" by (rule score_row_semantic_half)
  with Cons.prems(3) have "\<forall>c\<in>set (res0 @ [c]). semantic_score c = 1 / 2" by simp
  with Cons.IH [OF Cons.prems(1) rest] show ?case by blast
qed

text \<open>
  C8. When the embedding model failed to load, the semantic score is 0.5 for every
  transcript and description, and so is the semantic score of every criterion of a
  returned result; and a scoring call that fails then fails with the same exception
  whatever model is put in its place, so no call fails because the model is absent.
\<close>

theorem semantic_score_without_model:
  assumes "model e = None"
  shows "compute_semantic_score e t d = 1 / 2 \<and>
    (\<forall>res. score_transcript e t0 rubric = Inr res
        \<longrightarrow> (\<forall>c\<in>set (per_criterion res). semantic_score c = 1 / 2)) \<and>
    (\<forall>err m. score_transcript e t0 rubric = Inl err
        \<longrightarrow> score_transcript (e\<lparr>model := m\<rparr>) t0 rubric = Inl err)"
proof (intro conjI allI impI)
  show "compute_semantic_score e t d = 1 / 2"
    using assms by (simp add: compute_semantic_score_def)
next
  fix res
  assume "score_transcript e t0 rubric = Inr res"
  then obtain results s w where
    "score_rows e (preprocess_text t0) (length (split_ws (preprocess_text t0))) rubric
       ([], Fin 0, Fin 0) = Inr (results, s, w)"
    and "per_criterion res = results"
    by (auto simp: score_transcript_def Let_def split: sum.splits if_splits)
  with score_rows_semantic_half [OF assms, of _ _ rubric "[]"]
  show "\<forall>c\<in>set (per_criterion res). semantic_score c = 1 / 2" by auto
next
  fix err m
  assume a: "score_transcript e t0 rubric = Inl err"
  let ?t = "preprocess_text t0"
  let ?wc = "length (split_ws ?t)"
  show "score_transcript (e\<lparr>model := m\<rparr>) t0 rubric = Inl err"
  proof (cases "score_rows e ?t ?wc rubric ([], Fin 0, Fin 0)")
    case (Inl err')
    with a have "err' = err" by (simp add: score_transcript_def Let_def)
    with Inl have "score_rows (e\<lparr>model := m\<rparr>) ?t ?wc rubric ([], Fin 0, Fin 0) = Inl err"
      by (simp add: score_rows_error_model)
    then show ?thesis by (simp add: score_transcript_def Let_def)
  next
    case (Inr x)
    obtain results s w where x: "x = (results, s, w)" by (cases x)
    have "fdiv s w \<noteq> Inl err" if "w \<noteq> Fin 0"
      using that by (cases s; cases w) (auto simp: )
    with a Inr x show ?thesis
      by (auto simp: score_transcript_def Let_def split: sum.splits if_splits)
  qed
qed


theorem semantic_score_without_model_witness:
  "model plain_env = None \<and>
   compute_semantic_score plain_env ''hello'' (Text ''greets the audience'') = 1 / 2 \<and>
   score_transcript plain_env ''a'' [[(''MinWords'', Text ''ten'')]] = Inl ValueError \<and>
   score_transcript (plain_env\<lparr>model := Some (\<lambda>a b. 1)\<rparr>) ''a'' [[(''MinWords'', Text ''ten'')]]
     = Inl ValueError"
proof -
  have m: "model plain_env = None" by (simp add: plain_env_def)
  have f: "score_transcript plain_env ''a'' [[(''MinWords'', Text ''ten'')]] = Inl ValueError"
    by code_simp
  show ?thesis
    using semantic_score_without_model
      [OF m, of "''hello''" "Text ''greets the audience''" "''a''" "[[(''MinWords'', Text ''ten'')]]"]
      m f
    by simp
qed







end
